theory Spec2Isabelle
  imports Complex_Main
begin

section \<open>Fundamentals and the discounted-cash-flow valuation\<close>

text \<open>
  The fundamentals record \<open>info\<close> is a Python dict from field names to values. A value is
  \<open>None\<close>, an integer, a float or a string. Floats are modelled by the real numbers they
  denote: arithmetic is exact, and rounding, overflow and the special values of IEEE
  doubles are outside this part of the model.
\<close>

datatype pyval = PyNone | PyInt int | PyFloat real | PyStr string

datatype py_error = TypeError | ZeroDivisionError

type_synonym info_dict = "(string \<times> pyval) list"

text \<open>\<open>d.get(k)\<close> and \<open>d.get(k, default)\<close>.\<close>

definition py_get :: "info_dict \<Rightarrow> string \<Rightarrow> pyval" where
  "py_get d k = (case map_of d k of None \<Rightarrow> PyNone | Some v \<Rightarrow> v)"

definition py_get_default :: "info_dict \<Rightarrow> string \<Rightarrow> pyval \<Rightarrow> pyval" where
  "py_get_default d k dflt = (case map_of d k of None \<Rightarrow> dflt | Some v \<Rightarrow> v)"

text \<open>Truth value testing: \<open>not v\<close> is \<open>\<not> truthy v\<close>.\<close>

fun truthy :: "pyval \<Rightarrow> bool" where
  "truthy PyNone = False"
| "truthy (PyInt n) = (n \<noteq> 0)"
| "truthy (PyFloat r) = (r \<noteq> 0)"
| "truthy (PyStr s) = (s \<noteq> [])"

text \<open>The number a value denotes in arithmetic and comparisons; anything else raises \<open>TypeError\<close>.\<close>

fun py_num :: "pyval \<Rightarrow> py_error + real" where
  "py_num (PyInt n) = Inr (of_int n)"
| "py_num (PyFloat r) = Inr r"
| "py_num PyNone = Inl TypeError"
| "py_num (PyStr s) = Inl TypeError"

text \<open>\<open>v < 0\<close>.\<close>

definition py_lt0 :: "pyval \<Rightarrow> py_error + bool" where
  "py_lt0 v = (case py_num v of Inl e \<Rightarrow> Inl e | Inr r \<Rightarrow> Inr (r < 0))"

text \<open>\<open>x / v\<close> for a float \<open>x\<close>.\<close>

definition py_truediv :: "real \<Rightarrow> pyval \<Rightarrow> py_error + real" where
  "py_truediv x v =
     (case py_num v of
        Inl e \<Rightarrow> Inl e
      | Inr r \<Rightarrow> if r = 0 then Inl ZeroDivisionError else Inr (x / r))"

text \<open>\<open>enumerate(xs, 1)\<close>.\<close>

definition enumerate1 :: "'a list \<Rightarrow> (nat \<times> 'a) list" where
  "enumerate1 xs = zip [1..<Suc (length xs)] xs"

text \<open>
  Lines 68 to 73 of \<open>calculate_dcf\<close>, reached with a numeric free cash flow: the
  projection, the discounting, the terminal value and the division by the share count.
\<close>

definition dcf_value :: "real \<Rightarrow> pyval \<Rightarrow> py_error + real" where
  "dcf_value fcf shares =
     (let growth = 0.12; discount = 0.10; terminal = 0.03;
          future_fcf = map (\<lambda>i. fcf * (1 + growth) ^ i) [1..<6];
          pv_fcf = sum_list (map (\<lambda>(i, f). f / (1 + discount) ^ i) (enumerate1 future_fcf));
          tv = (last future_fcf * (1 + terminal)) / (discount - terminal);
          pv_tv = tv / (1 + discount) ^ 5
      in py_truediv (pv_fcf + pv_tv) shares)"

text \<open>The body of the \<open>try\<close> block: \<open>Inl\<close> is a raised exception, \<open>Inr None\<close> the early return.\<close>

definition calculate_dcf_body :: "info_dict \<Rightarrow> py_error + real option" where
  "calculate_dcf_body info =
     (let fcf = py_get info ''freeCashflow'';
          shares = py_get info ''sharesOutstanding''
      in if \<not> truthy fcf then Inr None
         else (case py_lt0 fcf of
                 Inl e \<Rightarrow> Inl e
               | Inr neg \<Rightarrow>
                   if neg \<or> \<not> truthy shares then Inr None
                   else (case py_num fcf of
                           Inl e \<Rightarrow> Inl e
                         | Inr f \<Rightarrow> map_sum id Some (dcf_value f shares))))"

text \<open>\<open>calculate_dcf\<close>: the bare \<open>except\<close> turns every exception into \<open>None\<close>.\<close>

definition calculate_dcf :: "info_dict \<Rightarrow> real option" where
  "calculate_dcf info = (case calculate_dcf_body info of Inl e \<Rightarrow> None | Inr r \<Rightarrow> r)"


section \<open>The relative strength index\<close>

text \<open>
  A pandas Series of dtype float64 is a list of values that are \<open>NaN\<close>, infinite or finite.
  Finite values are real numbers with exact arithmetic; the special values follow IEEE 754
  as numpy applies it elementwise (a division by zero yields an infinity or \<open>NaN\<close> and
  raises nothing). Zero carries no sign.
\<close>

datatype npfloat = NaN | Fin real | PInf | NInf

fun np_neg :: "npfloat \<Rightarrow> npfloat" where
  "np_neg NaN = NaN"
| "np_neg (Fin a) = Fin (- a)"
| "np_neg PInf = NInf"
| "np_neg NInf = PInf"

fun np_add :: "npfloat \<Rightarrow> npfloat \<Rightarrow> npfloat" where
  "np_add NaN y = NaN"
| "np_add x NaN = NaN"
| "np_add (Fin a) (Fin b) = Fin (a + b)"
| "np_add (Fin a) y = y"
| "np_add x (Fin b) = x"
| "np_add PInf PInf = PInf"
| "np_add NInf NInf = NInf"
| "np_add PInf NInf = NaN"
| "np_add NInf PInf = NaN"

definition np_sub :: "npfloat \<Rightarrow> npfloat \<Rightarrow> npfloat" where
  "np_sub x y = np_add x (np_neg y)"

fun np_div :: "npfloat \<Rightarrow> npfloat \<Rightarrow> npfloat" where
  "np_div NaN y = NaN"
| "np_div x NaN = NaN"
| "np_div (Fin a) (Fin b) =
     (if b \<noteq> 0 then Fin (a / b) else if 0 < a then PInf else if a < 0 then NInf else NaN)"
| "np_div (Fin a) y = Fin 0"
| "np_div PInf (Fin b) = (if 0 \<le> b then PInf else NInf)"
| "np_div NInf (Fin b) = (if 0 \<le> b then NInf else PInf)"
| "np_div x y = NaN"

text \<open>Comparisons with \<open>NaN\<close> are false.\<close>

fun np_lt :: "npfloat \<Rightarrow> npfloat \<Rightarrow> bool" where
  "np_lt NaN y = False"
| "np_lt x NaN = False"
| "np_lt (Fin a) (Fin b) = (a < b)"
| "np_lt (Fin a) PInf = True"
| "np_lt NInf (Fin b) = True"
| "np_lt NInf PInf = True"
| "np_lt x y = False"

definition np_gt :: "npfloat \<Rightarrow> npfloat \<Rightarrow> bool" where
  "np_gt x y = np_lt y x"

text \<open>\<open>Series.diff()\<close>: the first entry has no predecessor and is \<open>NaN\<close>.\<close>

definition diff :: "npfloat list \<Rightarrow> npfloat list" where
  "diff xs = (case xs of [] \<Rightarrow> [] | x # t \<Rightarrow> NaN # map2 np_sub t xs)"

text \<open>\<open>Series.where(cond, other)\<close>: entries failing the condition are replaced.\<close>

definition where_cond :: "(npfloat \<Rightarrow> bool) \<Rightarrow> npfloat \<Rightarrow> npfloat list \<Rightarrow> npfloat list" where
  "where_cond c other xs = map (\<lambda>x. if c x then x else other) xs"

text \<open>
  \<open>Series.rolling(window).mean()\<close> with the default \<open>min_periods = window\<close>: the entry at
  index \<open>i\<close> looks at the last \<open>window\<close> entries up to \<open>i\<close>, counts those that are not
  \<open>NaN\<close>, and is their mean when there are at least \<open>window\<close> (and at least one) of them,
  \<open>NaN\<close> otherwise.
\<close>

definition window_at :: "nat \<Rightarrow> 'a list \<Rightarrow> nat \<Rightarrow> 'a list" where
  "window_at w xs i = drop (Suc i - w) (take (Suc i) xs)"

definition np_sum :: "npfloat list \<Rightarrow> npfloat" where
  "np_sum xs = foldl np_add (Fin 0) xs"

definition rolling_mean_at :: "nat \<Rightarrow> npfloat list \<Rightarrow> nat \<Rightarrow> npfloat" where
  "rolling_mean_at w xs i =
     (let obs = filter (\<lambda>x. x \<noteq> NaN) (window_at w xs i);
          nobs = length obs
      in if w \<le> nobs \<and> 0 < nobs then np_div (np_sum obs) (Fin (real nobs)) else NaN)"

definition rolling_mean :: "nat \<Rightarrow> npfloat list \<Rightarrow> npfloat list" where
  "rolling_mean w xs = map (rolling_mean_at w xs) [0..<length xs]"

text \<open>The two moving averages of \<open>calculate_rsi\<close> (lines 57 to 59) and its result.\<close>

definition rsi_gain :: "npfloat list \<Rightarrow> nat \<Rightarrow> npfloat list" where
  "rsi_gain data window =
     (let delta = diff data
      in rolling_mean window (where_cond (\<lambda>d. np_gt d (Fin 0)) (Fin 0) delta))"

definition rsi_loss :: "npfloat list \<Rightarrow> nat \<Rightarrow> npfloat list" where
  "rsi_loss data window =
     (let delta = diff data
      in rolling_mean window (map np_neg (where_cond (\<lambda>d. np_lt d (Fin 0)) (Fin 0) delta)))"

definition calculate_rsi :: "npfloat list \<Rightarrow> nat \<Rightarrow> npfloat list" where
  "calculate_rsi data window =
     (let gain = rsi_gain data window;
          loss = rsi_loss data window;
          rs = map2 np_div gain loss
      in map (\<lambda>r. np_sub (Fin 100) (np_div (Fin 100) (np_add (Fin 1) r))) rs)"


section \<open>The summary record of \<open>get_data\<close>\<close>

text \<open>
  The data provider is external: \<open>get_data\<close> is modelled on what it delivered, the
  fundamentals dict \<open>info\<close> and the \<open>Close\<close> column of the price history \<open>hist\<close>.
\<close>

record summary_data =
  Ticker :: string
  Price :: pyval
  RevGrowth :: pyval
  FCF :: pyval
  Margin :: pyval
  Target :: pyval
  DCF :: "real option"
  RSI :: npfloat
  Description :: pyval

text \<open>\<open>hist.dropna(subset=['RSI'])\<close> on rows of close price and RSI.\<close>

definition dropna_rsi :: "(npfloat \<times> npfloat) list \<Rightarrow> (npfloat \<times> npfloat) list" where
  "dropna_rsi rows = filter (\<lambda>row. snd row \<noteq> NaN) rows"

definition get_data ::
  "string \<Rightarrow> info_dict \<Rightarrow> npfloat list \<Rightarrow> (summary_data \<times> (npfloat \<times> npfloat) list) option" where
  "get_data ticker info hist =
     (if map_of info ''currentPrice'' = None then None
      else if hist = [] then None
      else
        (let rsi = calculate_rsi hist 14;
             summary = py_get_default info ''longBusinessSummary'' (PyStr ''Description not available.'');
             data = \<lparr> Ticker = ticker,
                      Price = py_get_default info ''currentPrice'' (PyInt 0),
                      RevGrowth = py_get_default info ''revenueGrowth'' (PyInt 0),
                      FCF = py_get_default info ''freeCashflow'' (PyInt 0),
                      Margin = py_get_default info ''profitMargins'' (PyInt 0),
                      Target = py_get_default info ''targetMeanPrice'' (PyInt 0),
                      DCF = calculate_dcf info,
                      RSI = (if rsi \<noteq> [] then last rsi else Fin 50),
                      Description = summary \<rparr>;
             clean_hist = dropna_rsi (zip hist rsi)
         in Some (data, clean_hist)))"


section \<open>The news normalizer and the sentiment aggregation\<close>

text \<open>
  A raw news item is a dict of JSON values: null, strings and nested objects. A string
  stands for itself; numbers, booleans and arrays are not part of the model.
\<close>

datatype jval = JNull | JStr string | JDict "(string \<times> jval) list"

type_synonym news_item = "(string \<times> jval) list"

definition j_get :: "news_item \<Rightarrow> string \<Rightarrow> jval" where
  "j_get d k = (case map_of d k of None \<Rightarrow> JNull | Some v \<Rightarrow> v)"

fun j_truthy :: "jval \<Rightarrow> bool" where
  "j_truthy JNull = False"
| "j_truthy (JStr s) = (s \<noteq> [])"
| "j_truthy (JDict d) = (d \<noteq> [])"

text \<open>Lines 178 and 179: the title, from the item or from its nested content.\<close>

definition resolve_title :: "news_item \<Rightarrow> jval" where
  "resolve_title n =
     (let t = j_get n ''title''
      in if j_truthy t then t
         else (case j_get n ''content'' of JDict c \<Rightarrow> j_get c ''title'' | _ \<Rightarrow> JNull))"

text \<open>Lines 182 to 193: the link, from the item or from the nested URL objects.\<close>

definition resolve_link :: "news_item \<Rightarrow> jval" where
  "resolve_link n =
     (let link = j_get n ''link'';
          content = j_get n ''content''
      in case content of
           JDict c \<Rightarrow>
             if \<not> j_truthy link then
               (let link1 = (case j_get c ''clickThroughUrl'' of
                               JDict ct_url \<Rightarrow> j_get ct_url ''url''
                             | _ \<Rightarrow> link)
                in if \<not> j_truthy link1 then
                     (case j_get c ''canonicalUrl'' of
                        JDict can_url \<Rightarrow> j_get can_url ''url''
                      | _ \<Rightarrow> link1)
                   else link1)
             else link
         | _ \<Rightarrow> link)"

text \<open>Line 199: the link kept for a headline whose title is the string \<open>title\<close>.\<close>

definition final_link :: "news_item \<Rightarrow> string \<Rightarrow> jval" where
  "final_link n title =
     (let link = resolve_link n
      in if j_truthy link then link else JStr (''https://www.google.com/search?q='' @ title))"

record headline =
  title :: jval
  link :: jval

record news_state =
  scores :: "int list"
  titles_found :: "jval list"
  seen_titles :: "jval set"
  display_news :: "headline list"

definition init_state :: news_state where
  "init_state = \<lparr> scores = [], titles_found = [], seen_titles = {}, display_news = [] \<rparr>"

text \<open>Line 207: the value of a label.\<close>

definition label_score :: "string \<Rightarrow> int" where
  "label_score label = (if label = ''positive'' then 1 else if label = ''negative'' then - 1 else 0)"

text \<open>
  One iteration of the loop body after the cap check (lines 178 to 209). The classifier
  \<open>sentiment_pipe\<close> is external: it yields the label of its first result, or \<open>None\<close> when
  the call or the access to its result raises. A dict is not hashable, so a title that is
  a non-empty dict raises \<open>TypeError\<close> at the membership test; nothing catches it.
\<close>

definition news_step :: "(string \<Rightarrow> string option) \<Rightarrow> news_state \<Rightarrow> news_item \<Rightarrow> py_error + news_state" where
  "news_step sentiment_pipe st n =
     (let t = resolve_title n
      in if j_truthy t then
           (case t of
              JDict d \<Rightarrow> Inl TypeError
            | JNull \<Rightarrow> Inr st
            | JStr s \<Rightarrow>
                if t \<notin> seen_titles st then
                  (let st1 = st\<lparr> seen_titles := insert t (seen_titles st),
                                  titles_found := titles_found st @ [t] \<rparr>;
                       st2 = (if length (display_news st1) < 5
                              then st1\<lparr> display_news :=
                                          display_news st1 @ [\<lparr> title = t, link = final_link n s \<rparr>] \<rparr>
                              else st1)
                   in case sentiment_pipe s of
                        Some label \<Rightarrow> Inr (st2\<lparr> scores := scores st2 @ [label_score label] \<rparr>)
                      | None \<Rightarrow> Inr st2)
                else Inr st)
         else Inr st)"

text \<open>The \<open>for\<close> loop of lines 174 to 209 with its \<open>break\<close>.\<close>

fun news_loop :: "(string \<Rightarrow> string option) \<Rightarrow> news_state \<Rightarrow> news_item list \<Rightarrow> py_error + news_state" where
  "news_loop sentiment_pipe st [] = Inr st"
| "news_loop sentiment_pipe st (n # ns) =
     (if 20 \<le> length (titles_found st) then Inr st
      else (case news_step sentiment_pipe st n of
              Inl e \<Rightarrow> Inl e
            | Inr st' \<Rightarrow> news_loop sentiment_pipe st' ns))"

text \<open>
  The number of raw items the loop works on: the iterations that pass the cap check and
  run the title and link extraction.
\<close>

fun items_processed :: "(string \<Rightarrow> string option) \<Rightarrow> news_state \<Rightarrow> news_item list \<Rightarrow> nat" where
  "items_processed sentiment_pipe st [] = 0"
| "items_processed sentiment_pipe st (n # ns) =
     (if 20 \<le> length (titles_found st) then 0
      else Suc (case news_step sentiment_pipe st n of
                  Inl e \<Rightarrow> 0
                | Inr st' \<Rightarrow> items_processed sentiment_pipe st' ns))"

text \<open>Lines 168 to 209.\<close>

definition normalize_news :: "(string \<Rightarrow> string option) \<Rightarrow> news_item list \<Rightarrow> py_error + news_state" where
  "normalize_news sentiment_pipe news_list =
     (if news_list \<noteq> [] then news_loop sentiment_pipe init_state news_list else Inr init_state)"

text \<open>
  Lines 211 to 215. The rendering of a float with two decimals (\<open>:.2f\<close>) is Python's own
  and is taken as the parameter \<open>fmt2\<close>.
\<close>

definition aggregate_sentiment :: "(real \<Rightarrow> string) \<Rightarrow> int list \<Rightarrow> real \<times> string" where
  "aggregate_sentiment fmt2 scs =
     (if scs = [] then (0, ''No News Data'')
      else
        (let sent_val = real_of_int (sum_list scs) / real (length scs)
         in (sent_val,
             if sent_val > 0.15 then ''Positive ('' @ fmt2 sent_val @ '')''
             else if sent_val < - 0.15 then ''Negative ('' @ fmt2 sent_val @ '')''
             else ''Neutral / Mixed'')))"


section \<open>What the specification says, as definitions\<close>




text \<open>Deduplication in which the first occurrence wins and the order is kept.\<close>

fun dedup_first :: "'a list \<Rightarrow> 'a list" where
  "dedup_first [] = []"
| "dedup_first (x # xs) = x # dedup_first (filter (\<lambda>y. y \<noteq> x) xs)"

text \<open>The titles of a batch, in order, for the items that have one.\<close>

definition batch_titles :: "news_item list \<Rightarrow> jval list" where
  "batch_titles ns = filter j_truthy (map resolve_title ns)"

text \<open>The link of the first item of a batch that carries the title \<open>t\<close>.\<close>

definition first_seen_link :: "news_item list \<Rightarrow> jval \<Rightarrow> jval" where
  "first_seen_link ns t =
     (case (find (\<lambda>n. resolve_title n = t) ns, t) of
        (Some n, JStr s) \<Rightarrow> final_link n s
      | _ \<Rightarrow> JNull)"

text \<open>
  The fallback chain of the link: the direct field, then the url of the click-through
  object, then the url of the canonical object, the nested ones only where the objects
  are dicts; and the first value of a chain that counts as present.
\<close>

definition link_chain :: "news_item \<Rightarrow> jval list" where
  "link_chain n =
     j_get n ''link'' #
     (case j_get n ''content'' of
        JDict c \<Rightarrow>
          (case j_get c ''clickThroughUrl'' of JDict ct_url \<Rightarrow> [j_get ct_url ''url''] | _ \<Rightarrow> [])
          @ (case j_get c ''canonicalUrl'' of JDict can_url \<Rightarrow> [j_get can_url ''url''] | _ \<Rightarrow> [])
      | _ \<Rightarrow> [])"

definition first_truthy :: "jval list \<Rightarrow> jval \<Rightarrow> jval" where
  "first_truthy vs dflt = (case filter j_truthy vs of [] \<Rightarrow> dflt | v # _ \<Rightarrow> v)"

text \<open>
  URL escaping of a query parameter: letters, digits and the marks \<open>- . _ ~\<close> stand for
  themselves, every other character is written as a percent sign and two hexadecimal
  digits.
\<close>

definition hex_digit :: "nat \<Rightarrow> char" where
  "hex_digit k = (if k < 16 then ''0123456789ABCDEF'' ! k else CHR ''?'')"

definition unreserved :: "char \<Rightarrow> bool" where
  "unreserved c =
     (c \<in> set ''ABCDEFGHIJKLMNOPQRSTUVWXYZabcdefghijklmnopqrstuvwxyz0123456789-._~'')"

definition url_escape :: "string \<Rightarrow> string" where
  "url_escape s =
     concat (map (\<lambda>c. if unreserved c then [c]
                       else [CHR ''%'', hex_digit (of_char c div 16), hex_digit (of_char c mod 16)]) s)"


text \<open>
  Auxiliary notions for the moving averages: a finite value that is not negative, a value
  that is finite or \<open>NaN\<close>, and the last line of \<open>calculate_rsi\<close> on one pair of averages.
\<close>

fun nonneg :: "npfloat \<Rightarrow> bool" where
  "nonneg (Fin r) = (0 \<le> r)"
| "nonneg x = False"

fun fin_or_nan :: "npfloat \<Rightarrow> bool" where
  "fin_or_nan NaN = True"
| "fin_or_nan (Fin r) = True"
| "fin_or_nan x = False"

definition rsi_formula :: "npfloat \<Rightarrow> npfloat \<Rightarrow> npfloat" where
  "rsi_formula g l = np_sub (Fin 100) (np_div (Fin 100) (np_add (Fin 1) (np_div g l)))"


text \<open>
  Auxiliary notions for the loop: the labels of the titles the classifier scores, the
  headline of a title in a batch, and the titles a batch adds to those already found.
\<close>

definition scored_labels :: "(string \<Rightarrow> string option) \<Rightarrow> jval list \<Rightarrow> string list" where
  "scored_labels sentiment_pipe ts =
     concat (map (\<lambda>t. case t of
                         JStr s \<Rightarrow> (case sentiment_pipe s of Some label \<Rightarrow> [label] | None \<Rightarrow> [])
                       | _ \<Rightarrow> []) ts)"

definition headline_of :: "news_item list \<Rightarrow> jval \<Rightarrow> headline" where
  "headline_of ns t = \<lparr> title = t, link = first_seen_link ns t \<rparr>"

definition new_titles :: "jval list \<Rightarrow> news_item list \<Rightarrow> jval list" where
  "new_titles found ns =
     take (20 - length found) (dedup_first (filter (\<lambda>t. t \<notin> set found) (batch_titles ns)))"

text \<open>The title of an item is a string, or it is absent or empty.\<close>

definition string_title :: "news_item \<Rightarrow> bool" where
  "string_title n = (case resolve_title n of JDict d \<Rightarrow> d = [] | _ \<Rightarrow> True)"


section \<open>Properties of the valuation\<close>

















section \<open>Properties of the relative strength index and of the summary record\<close>

lemma length_diff: "length (diff xs) = length xs"
  by (cases xs) (simp_all add: diff_def)

lemma length_rolling_mean: "length (rolling_mean w xs) = length xs"
  by (simp add: rolling_mean_def)

lemma length_rsi_gain: "length (rsi_gain d w) = length d"
  by (simp add: rsi_gain_def length_rolling_mean where_cond_def length_diff)

lemma length_rsi_loss: "length (rsi_loss d w) = length d"
  by (simp add: rsi_loss_def length_rolling_mean where_cond_def length_diff)

lemma length_calculate_rsi: "length (calculate_rsi d w) = length d"
  by (simp add: calculate_rsi_def length_rsi_gain length_rsi_loss)

lemma calculate_rsi_nth:
  "i < length d \<Longrightarrow> calculate_rsi d w ! i = rsi_formula (rsi_gain d w ! i) (rsi_loss d w ! i)"
  by (simp add: calculate_rsi_def rsi_formula_def length_rsi_gain length_rsi_loss)

lemma rsi_formula_saturates: "0 < g \<Longrightarrow> rsi_formula (Fin g) (Fin 0) = Fin 100"
  by (simp add: rsi_formula_def np_sub_def)

text \<open>
  An infinite ratio of either sign gives 100. With the negative zero of IEEE 754 as the
  average of the losses the ratio is the negative infinity, and the result is the same.
\<close>

lemma rsi_formula_infinite:
  "np_div g l = PInf \<or> np_div g l = NInf \<Longrightarrow> rsi_formula g l = Fin 100"
  by (auto simp: rsi_formula_def np_sub_def)

lemma rsi_formula_NaN: "rsi_formula NaN l = NaN" "rsi_formula g NaN = NaN"
  by (cases g; simp add: rsi_formula_def np_sub_def)+

lemma rsi_formula_range:
  assumes "g = NaN \<or> nonneg g" and "l = NaN \<or> nonneg l"
  shows "rsi_formula g l = NaN \<or> (\<exists>v. rsi_formula g l = Fin v \<and> 0 \<le> v \<and> v \<le> 100)"
proof (cases "g = NaN \<or> l = NaN")
  case True
  then show ?thesis using rsi_formula_NaN by auto
next
  case False
  with assms obtain a b where ab: "g = Fin a" "0 \<le> a" "l = Fin b" "0 \<le> b"
    by (cases g; cases l) auto
  show ?thesis
  proof (cases "b = 0")
    case True
    then show ?thesis using ab by (cases "0 < a") (auto simp: rsi_formula_def np_sub_def)
  next
    case False
    with ab have "0 \<le> a / b" by simp
    then have pos: "1 \<le> 1 + a / b" by simp
    then have ne: "1 + a / b \<noteq> 0" by linarith
    from pos have "0 \<le> 100 / (1 + a / b)" "100 / (1 + a / b) \<le> 100"
      by (simp_all add: divide_le_eq)
    moreover have "rsi_formula g l = Fin (100 - 100 / (1 + a / b))"
      using ab False ne by (simp add: rsi_formula_def np_sub_def)
    ultimately show ?thesis by simp
  qed
qed

lemma foldl_np_add_nonneg:
  "list_all nonneg ys \<Longrightarrow> 0 \<le> a \<Longrightarrow> \<exists>s. foldl np_add (Fin a) ys = Fin s \<and> 0 \<le> s"
proof (induction ys arbitrary: a)
  case Nil
  then show ?case by simp
next
  case (Cons y ys)
  then obtain r where "y = Fin r" "0 \<le> r" by (cases y) auto
  with Cons show ?case by simp
qed

lemma rolling_mean_at_nonneg:
  assumes "list_all nonneg xs"
  shows "rolling_mean_at w xs i = NaN \<or> nonneg (rolling_mean_at w xs i)"
proof -
  define obs where "obs = filter (\<lambda>x. x \<noteq> NaN) (window_at w xs i)"
  have "set obs \<subseteq> set xs"
    unfolding obs_def window_at_def by (auto dest: in_set_dropD in_set_takeD)
  with assms have "list_all nonneg obs" by (auto simp: list_all_iff)
  then obtain s where s: "np_sum obs = Fin s" "0 \<le> s"
    using foldl_np_add_nonneg [of obs 0] by (auto simp: np_sum_def)
  show ?thesis
    using s by (auto simp: rolling_mean_at_def obs_def [symmetric] Let_def)
qed

lemma rolling_mean_at_short: "Suc i < w \<Longrightarrow> rolling_mean_at w xs i = NaN"
proof -
  assume "Suc i < w"
  have "length (filter (\<lambda>x. x \<noteq> NaN) (window_at w xs i)) \<le> length (window_at w xs i)"
    by (rule length_filter_le)
  also have "\<dots> \<le> Suc i" by (simp add: window_at_def)
  finally show ?thesis using \<open>Suc i < w\<close> by (simp add: rolling_mean_at_def Let_def)
qed

lemma rolling_mean_nth: "i < length xs \<Longrightarrow> rolling_mean w xs ! i = rolling_mean_at w xs i"
  by (simp add: rolling_mean_def)

lemma map2_np_sub_Fin: "map2 np_sub (map Fin xs) (map Fin ys) = map Fin (map2 (-) xs ys)"
  by (auto simp add: zip_map_map np_sub_def)

lemma diff_Fin:
  "diff (map Fin ps) = (case ps of [] \<Rightarrow> [] | p # t \<Rightarrow> NaN # map Fin (map2 (-) t ps))"
proof (cases ps)
  case Nil
  then show ?thesis by (simp add: diff_def)
next
  case (Cons p t)
  have "map2 np_sub (map Fin t) (map Fin (p # t)) = map Fin (map2 (-) t (p # t))"
    by (rule map2_np_sub_Fin)
  then show ?thesis using Cons by (simp add: diff_def)
qed

lemma fin_or_nan_diff: "list_all fin_or_nan (diff (map Fin ps))"
  unfolding diff_Fin by (cases ps) (simp_all add: list_all_iff)

lemma gain_raw_nonneg:
  "list_all fin_or_nan ds \<Longrightarrow> list_all nonneg (where_cond (\<lambda>d. np_gt d (Fin 0)) (Fin 0) ds)"
proof -
  have "nonneg (if np_gt x (Fin 0) then x else Fin 0)" if "fin_or_nan x" for x
    using that by (cases x) (auto simp: np_gt_def)
  then show "list_all fin_or_nan ds \<Longrightarrow> ?thesis"
    unfolding list_all_iff where_cond_def by (metis (no_types, lifting) imageE list.set_map)
qed

lemma loss_raw_nonneg:
  "list_all fin_or_nan ds \<Longrightarrow> list_all nonneg (map np_neg (where_cond (\<lambda>d. np_lt d (Fin 0)) (Fin 0) ds))"
proof -
  have "nonneg (np_neg (if np_lt x (Fin 0) then x else Fin 0))" if "fin_or_nan x" for x
    using that by (cases x) auto
  then show "list_all fin_or_nan ds \<Longrightarrow> ?thesis"
    by (auto simp: list_all_iff where_cond_def)
qed

lemma rsi_gain_nth:
  "i < length ps \<Longrightarrow> rsi_gain (map Fin ps) w ! i = NaN \<or> nonneg (rsi_gain (map Fin ps) w ! i)"
  using rolling_mean_at_nonneg [OF gain_raw_nonneg [OF fin_or_nan_diff]]
  by (simp add: rsi_gain_def rolling_mean_nth where_cond_def length_diff)

lemma rsi_loss_nth:
  "i < length ps \<Longrightarrow> rsi_loss (map Fin ps) w ! i = NaN \<or> nonneg (rsi_loss (map Fin ps) w ! i)"
  using rolling_mean_at_nonneg [OF loss_raw_nonneg [OF fin_or_nan_diff]]
  by (simp add: rsi_loss_def rolling_mean_nth where_cond_def length_diff)

lemma calculate_rsi_short:
  assumes "i < length d" "Suc i < w"
  shows "calculate_rsi d w ! i = NaN"
proof -
  have "rsi_gain d w ! i = NaN"
    using assms by (simp add: rsi_gain_def rolling_mean_nth where_cond_def length_diff rolling_mean_at_short)
  then show ?thesis using assms by (simp add: calculate_rsi_nth rsi_formula_NaN)
qed

lemma filter_take_Nil:
  assumes "\<And>j. j < k \<Longrightarrow> j < length zs \<Longrightarrow> \<not> P (zs ! j)"
  shows "filter P (take k zs) = []"
proof -
  have "\<not> P z" if "z \<in> set (take k zs)" for z
  proof -
    from that obtain j where "j < length (take k zs)" "take k zs ! j = z"
      by (auto simp: in_set_conv_nth)
    then show ?thesis using assms [of j] by auto
  qed
  then show ?thesis by (simp add: filter_empty_conv)
qed

lemma dropna_rsi_drop:
  "dropna_rsi (zip d (calculate_rsi d w)) = dropna_rsi (drop (w - 1) (zip d (calculate_rsi d w)))"
proof -
  let ?zs = "zip d (calculate_rsi d w)"
  have "filter (\<lambda>row. snd row \<noteq> NaN) (take (w - 1) ?zs) = []"
  proof (rule filter_take_Nil)
    fix j assume "j < w - 1" "j < length ?zs"
    then have "j < length d" "Suc j < w" by (simp_all add: length_calculate_rsi)
    then show "\<not> snd (?zs ! j) \<noteq> NaN"
      by (simp add: length_calculate_rsi calculate_rsi_short)
  qed
  moreover have "?zs = take (w - 1) ?zs @ drop (w - 1) ?zs" by simp
  ultimately have "filter (\<lambda>row. snd row \<noteq> NaN) ?zs
      = filter (\<lambda>row. snd row \<noteq> NaN) (drop (w - 1) ?zs)"
    by (metis append_Nil filter_append)
  then show ?thesis by (simp add: dropna_rsi_def)
qed

text \<open>
  Claim C5, as amended. For every series of finite prices and every window, each entry
  of the result of \<open>calculate_rsi\<close> is undefined (\<open>NaN\<close>) or a value in [0, 100]; the entries
  at the indices below \<open>window - 1\<close> (the first \<open>window - 1\<close> entries) are undefined; and
  \<open>dropna\<close> removes them, and every other undefined row, from the cleaned history.
\<close>

theorem calculate_rsi_range:
  "length (calculate_rsi (map Fin prices) window) = length prices
   \<and> (\<forall>i < length prices.
         calculate_rsi (map Fin prices) window ! i = NaN
         \<or> (\<exists>v. calculate_rsi (map Fin prices) window ! i = Fin v \<and> 0 \<le> v \<and> v \<le> 100))
   \<and> (\<forall>i < length prices. Suc i < window \<longrightarrow> calculate_rsi (map Fin prices) window ! i = NaN)
   \<and> dropna_rsi (zip (map Fin prices) (calculate_rsi (map Fin prices) window))
       = dropna_rsi (drop (window - 1) (zip (map Fin prices) (calculate_rsi (map Fin prices) window)))
   \<and> (\<forall>row \<in> set (dropna_rsi (zip (map Fin prices) (calculate_rsi (map Fin prices) window))).
         snd row \<noteq> NaN)"
proof -
  have "calculate_rsi (map Fin prices) window ! i = NaN
      \<or> (\<exists>v. calculate_rsi (map Fin prices) window ! i = Fin v \<and> 0 \<le> v \<and> v \<le> 100)"
    if "i < length prices" for i
    using that rsi_formula_range [OF rsi_gain_nth [OF that] rsi_loss_nth [OF that]]
    by (simp add: calculate_rsi_nth)
  moreover have "calculate_rsi (map Fin prices) window ! i = NaN"
    if "i < length prices" "Suc i < window" for i
    using that by (simp add: calculate_rsi_short)
  moreover have "snd row \<noteq> NaN"
    if "row \<in> set (dropna_rsi (zip (map Fin prices) (calculate_rsi (map Fin prices) window)))"
    for row
    using that by (simp add: dropna_rsi_def)
  ultimately show ?thesis
    using dropna_rsi_drop [of "map Fin prices" window]
    by (simp add: length_calculate_rsi)
qed

theorem calculate_rsi_range_witness:
  "calculate_rsi (map Fin [1, 2, 3, 2, 5]) 3 = [NaN, NaN, Fin 100, Fin (200 / 3), Fin 80]
   \<and> dropna_rsi (zip (map Fin [1, 2, 3, 2, 5]) (calculate_rsi (map Fin [1, 2, 3, 2, 5]) 3))
       = [(Fin 3, Fin 100), (Fin 2, Fin (200 / 3)), (Fin 5, Fin 80)]
   \<and> dropna_rsi (zip (map Fin [1, 2, 3, 2, 5]) (calculate_rsi (map Fin [1, 2, 3, 2, 5]) 3))
       = dropna_rsi (drop (3 - 1)
           (zip (map Fin [1, 2, 3, 2, 5]) (calculate_rsi (map Fin [1, 2, 3, 2, 5]) 3)))"
proof -
  have "calculate_rsi (map Fin [1, 2, 3, 2, 5]) 3 = [NaN, NaN, Fin 100, Fin (200 / 3), Fin 80]"
    by code_simp
  moreover have "dropna_rsi (zip (map Fin [1, 2, 3, 2, 5]) [NaN, NaN, Fin 100, Fin (200 / 3), Fin 80])
      = [(Fin 3, Fin 100), (Fin 2, Fin (200 / 3)), (Fin 5, Fin 80)]"
    by (simp add: dropna_rsi_def)
  ultimately show ?thesis
    using calculate_rsi_range [of "[1, 2, 3, 2, 5]" 3] by simp
qed

text \<open>
  Claim C5 as stated fails: the entry at index \<open>window - 1\<close> is among the first \<open>window\<close>
  entries, yet it is defined and kept in the cleaned history. With the default window of
  14 and fourteen rising prices the fourteenth entry is 100.
\<close>

theorem calculate_rsi_defined_at_window_minus_1:
  "calculate_rsi (map Fin [1, 2, 3, 4, 5, 6, 7, 8, 9, 10, 11, 12, 13, 14]) 14 ! 13 = Fin 100
   \<and> dropna_rsi (zip (map Fin [1, 2, 3, 4, 5, 6, 7, 8, 9, 10, 11, 12, 13, 14])
        (calculate_rsi (map Fin [1, 2, 3, 4, 5, 6, 7, 8, 9, 10, 11, 12, 13, 14]) 14))
       = [(Fin 14, Fin 100)]"
  by code_simp

text \<open>
  Claim C6. At an index where the moving average of the losses is 0 and the moving
  average of the gains is strictly positive, \<open>calculate_rsi\<close> yields exactly 100: the
  division by zero yields an infinity and raises nothing.
\<close>

theorem calculate_rsi_saturates:
  assumes "i < length data"
    and "rsi_gain data window ! i = Fin g" and "0 < g"
    and "rsi_loss data window ! i = Fin 0"
  shows "calculate_rsi data window ! i = Fin 100"
  using assms by (simp add: calculate_rsi_nth rsi_formula_saturates)

theorem calculate_rsi_saturates_witness:
  "rsi_gain (map Fin [10, 10.5, 11]) 2 ! 2 = Fin (1 / 2)
   \<and> rsi_loss (map Fin [10, 10.5, 11]) 2 ! 2 = Fin 0
   \<and> calculate_rsi (map Fin [10, 10.5, 11]) 2 ! 2 = Fin 100"
proof -
  have g: "rsi_gain (map Fin [10, 10.5, 11]) 2 ! 2 = Fin (1 / 2)"
    by code_simp
  have l: "rsi_loss (map Fin [10, 10.5, 11]) 2 ! 2 = Fin 0"
    by code_simp
  show ?thesis
    using g l calculate_rsi_saturates [of 2 "map Fin [10, 10.5, 11]" 2 "1 / 2"] by simp
qed

text \<open>
  Claim C10, as amended. In \<open>get_data\<close> the RSI of the summary record is the last element
  of the RSI column before the undefined entries are dropped, so for a non-empty price
  history with fewer than \<open>window\<close> (14) rows it is \<open>NaN\<close> rather than a number or an error.
  The \<open>else 50\<close> branch is unreachable: an empty history is rejected earlier with \<open>None\<close>,
  and for every other history the RSI column is not empty.
\<close>

theorem get_data_rsi_headline:
  "(hist = [] \<longrightarrow> get_data ticker info hist = None)
   \<and> (map_of info ''currentPrice'' \<noteq> None \<and> hist \<noteq> []
        \<longrightarrow> (\<exists>data clean_hist. get_data ticker info hist = Some (data, clean_hist)))
   \<and> (\<forall>data clean_hist. get_data ticker info hist = Some (data, clean_hist)
        \<longrightarrow> calculate_rsi hist 14 \<noteq> []
            \<and> RSI data = last (calculate_rsi hist 14)
            \<and> (length hist < 14 \<longrightarrow> RSI data = NaN))"
proof -
  have ne: "calculate_rsi hist 14 \<noteq> []" if "hist \<noteq> []"
    using that length_calculate_rsi [of hist 14] by auto
  have short: "last (calculate_rsi hist 14) = NaN" if "hist \<noteq> []" "length hist < 14"
  proof -
    have "last (calculate_rsi hist 14) = calculate_rsi hist 14 ! (length hist - 1)"
      using ne [OF that(1)] by (simp add: last_conv_nth length_calculate_rsi)
    also have "\<dots> = NaN"
      using that by (intro calculate_rsi_short) auto
    finally show ?thesis .
  qed
  show ?thesis
    using ne short by (auto simp: get_data_def Let_def split: if_splits)
qed

theorem get_data_rsi_headline_witness:
  "\<exists>data clean_hist.
     get_data ''NVDA'' [(''currentPrice'', PyFloat 11)] (map Fin [10, 10.5, 10.2, 11])
       = Some (data, clean_hist)
     \<and> RSI data = NaN \<and> clean_hist = []"
proof -
  have "dropna_rsi (zip (map Fin [10, 10.5, 10.2, 11]) (calculate_rsi (map Fin [10, 10.5, 10.2, 11]) 14)) = []"
    by code_simp
  then show ?thesis
    using get_data_rsi_headline [of "map Fin [10, 10.5, 10.2, 11]" "''NVDA''"
        "[(''currentPrice'', PyFloat 11)]"]
    by (auto simp: get_data_def Let_def)
qed

text \<open>
  Claim C10 as stated fails for a history of exactly 14 rows, which is fewer than 15: the
  RSI of the summary record is the number 100 for fourteen rising prices.
\<close>

theorem get_data_rsi_14_rows:
  "map_option (\<lambda>r. RSI (fst r))
     (get_data ''NVDA'' [(''currentPrice'', PyFloat 14)]
        (map Fin [1, 2, 3, 4, 5, 6, 7, 8, 9, 10, 11, 12, 13, 14]))
     = Some (Fin 100)"
proof -
  let ?hist = "map Fin [1, 2, 3, 4, 5, 6, 7, 8, 9, 10, 11, 12, 13, 14]"
  have "last (calculate_rsi ?hist 14) = Fin 100"
    by code_simp
  moreover have "calculate_rsi ?hist 14 \<noteq> []"
    using length_calculate_rsi [of ?hist 14] by auto
  ultimately show ?thesis
    by (simp add: get_data_def Let_def)
qed


section \<open>Properties of the news normalizer and of the sentiment aggregation\<close>

lemma set_dedup_first: "set (dedup_first xs) = set xs"
  by (induction xs rule: dedup_first.induct) auto

lemma distinct_dedup_first: "distinct (dedup_first xs)"
  by (induction xs rule: dedup_first.induct) (auto simp: set_dedup_first)

lemma news_step_skip:
  assumes "\<not> j_truthy (resolve_title n) \<or> resolve_title n \<in> seen_titles st"
    and "news_step pipe st n = Inr st'"
  shows "st' = st"
  using assms by (auto simp: news_step_def Let_def split: jval.splits if_splits)

lemma news_step_new:
  assumes "j_truthy (resolve_title n)" and "resolve_title n \<notin> seen_titles st"
    and "news_step pipe st n = Inr st'"
  shows "\<exists>s. resolve_title n = JStr s
    \<and> titles_found st' = titles_found st @ [JStr s]
    \<and> seen_titles st' = insert (JStr s) (seen_titles st)
    \<and> display_news st' =
        display_news st @ take (5 - length (display_news st)) [\<lparr> title = JStr s, link = final_link n s \<rparr>]
    \<and> scores st' = scores st @ map label_score (scored_labels pipe [JStr s])"
proof (cases "resolve_title n")
  case JNull
  with assms show ?thesis by simp
next
  case (JDict d)
  with assms show ?thesis by (simp add: news_step_def)
next
  case (JStr s)
  with assms show ?thesis
    by (cases "pipe s"; cases "length (display_news st) < 5")
      (auto simp: news_step_def Let_def scored_labels_def)
qed

lemma first_seen_link_skip:
  "resolve_title n \<noteq> t \<Longrightarrow> first_seen_link (n # ns) t = first_seen_link ns t"
  by (simp add: first_seen_link_def)

lemma first_seen_link_hit:
  "resolve_title n = JStr s \<Longrightarrow> first_seen_link (n # ns) (JStr s) = final_link n s"
  by (simp add: first_seen_link_def)

lemma new_titles_subset:
  "t \<in> set (new_titles found ns) \<Longrightarrow> t \<notin> set found \<and> j_truthy t"
  by (auto simp: new_titles_def set_dedup_first batch_titles_def dest!: in_set_takeD)

lemma new_titles_skip:
  assumes "\<not> j_truthy (resolve_title n) \<or> resolve_title n \<in> set found"
  shows "new_titles found (n # ns) = new_titles found ns"
  using assms by (auto simp: new_titles_def batch_titles_def)

lemma new_titles_new:
  assumes "j_truthy t" and "resolve_title n = t" and "t \<notin> set found" and "length found < 20"
  shows "new_titles found (n # ns) = t # new_titles (found @ [t]) ns"
proof -
  have "filter (\<lambda>y. y \<noteq> t) (filter (\<lambda>t. t \<notin> set found) (batch_titles ns))
      = filter (\<lambda>t'. t' \<notin> set (found @ [t])) (batch_titles ns)"
    by (auto intro: filter_cong)
  moreover have "20 - length found = Suc (20 - length (found @ [t]))"
    using assms(4) by simp
  ultimately show ?thesis
    using assms(1-3) by (simp add: new_titles_def batch_titles_def del: length_append)
qed

lemma new_titles_full: "20 \<le> length found \<Longrightarrow> new_titles found ns = []"
  by (simp add: new_titles_def)

lemma news_loop_result:
  assumes "news_loop pipe st ns = Inr st'" and "seen_titles st = set (titles_found st)"
  shows "titles_found st' = titles_found st @ new_titles (titles_found st) ns
    \<and> display_news st' =
        display_news st
        @ take (5 - length (display_news st)) (map (headline_of ns) (new_titles (titles_found st) ns))
    \<and> scores st' = scores st @ map label_score (scored_labels pipe (new_titles (titles_found st) ns))"
  using assms
proof (induction ns arbitrary: st)
  case Nil
  then show ?case by (simp add: new_titles_def batch_titles_def scored_labels_def)
next
  case (Cons n ns)
  show ?case
  proof (cases "20 \<le> length (titles_found st)")
    case True
    with Cons.prems show ?thesis by (simp add: new_titles_full scored_labels_def)
  next
    case False
    with Cons.prems obtain st1 where st1: "news_step pipe st n = Inr st1"
      and loop: "news_loop pipe st1 ns = Inr st'"
      by (auto split: sum.splits)
    show ?thesis
    proof (cases "j_truthy (resolve_title n) \<and> resolve_title n \<notin> seen_titles st")
      case skip: False
      then have eq: "st1 = st" using news_step_skip [OF _ st1] by blast
      have nt: "new_titles (titles_found st) (n # ns) = new_titles (titles_found st) ns"
        using skip Cons.prems(2) by (intro new_titles_skip) auto
      have "headline_of (n # ns) t = headline_of ns t"
        if "t \<in> set (new_titles (titles_found st) ns)" for t
      proof -
        from that have "t \<notin> set (titles_found st)" "j_truthy t"
          using new_titles_subset by blast+
        with skip Cons.prems(2) have "resolve_title n \<noteq> t" by auto
        then show ?thesis by (simp add: headline_of_def first_seen_link_skip)
      qed
      then have hm: "map (headline_of (n # ns)) (new_titles (titles_found st) ns)
          = map (headline_of ns) (new_titles (titles_found st) ns)"
        by simp
      show ?thesis
        unfolding nt hm using Cons.IH [OF loop [unfolded eq] Cons.prems(2)] by simp
    next
      case new: True
      then obtain s where s: "resolve_title n = JStr s"
        and t1: "titles_found st1 = titles_found st @ [JStr s]"
        and s1: "seen_titles st1 = insert (JStr s) (seen_titles st)"
        and d1: "display_news st1 = display_news st
            @ take (5 - length (display_news st)) [\<lparr> title = JStr s, link = final_link n s \<rparr>]"
        and c1: "scores st1 = scores st @ map label_score (scored_labels pipe [JStr s])"
        using news_step_new [OF _ _ st1] by blast
      have inv1: "seen_titles st1 = set (titles_found st1)"
        using t1 s1 Cons.prems(2) by simp
      note IH = Cons.IH [OF loop inv1]
      have nt: "new_titles (titles_found st) (n # ns) = JStr s # new_titles (titles_found st1) ns"
        using new s False Cons.prems(2) t1
        by (simp add: new_titles_new [where t = "JStr s"])
      have "headline_of (n # ns) t = headline_of ns t"
        if "t \<in> set (new_titles (titles_found st1) ns)" for t
      proof -
        from that have "t \<notin> set (titles_found st1)"
          using new_titles_subset by blast
        with t1 s have "resolve_title n \<noteq> t" by auto
        then show ?thesis by (simp add: headline_of_def first_seen_link_skip)
      qed
      then have hm: "map (headline_of (n # ns)) (new_titles (titles_found st1) ns)
          = map (headline_of ns) (new_titles (titles_found st1) ns)"
        by simp
      have hh: "headline_of (n # ns) (JStr s) = \<lparr> title = JStr s, link = final_link n s \<rparr>"
        using s by (simp add: headline_of_def first_seen_link_hit)
      have titles: "titles_found st' = titles_found st @ new_titles (titles_found st) (n # ns)"
        using IH t1 nt by simp
      have sc: "scores st' = scores st
          @ map label_score (scored_labels pipe (new_titles (titles_found st) (n # ns)))"
        using IH c1 nt by (simp add: scored_labels_def)
      have disp: "display_news st' = display_news st
          @ take (5 - length (display_news st))
              (map (headline_of (n # ns)) (new_titles (titles_found st) (n # ns)))"
      proof (cases "length (display_news st) < 5")
        case True
        then have "5 - length (display_news st) = Suc (5 - length (display_news st1))"
          using d1 by simp
        then show ?thesis
          using IH d1 True by (simp add: nt hm hh)
      next
        case False
        then show ?thesis
          using IH d1 by simp
      qed
      from titles sc disp show ?thesis by simp
    qed
  qed
qed


lemma news_loop_init:
  assumes "normalize_news pipe ns = Inr st"
  shows "titles_found st = take 20 (dedup_first (batch_titles ns))
    \<and> display_news st = map (headline_of ns) (take 5 (titles_found st))
    \<and> scores st = map label_score (scored_labels pipe (titles_found st))"
proof (cases "ns = []")
  case True
  with assms have "st = init_state" by (simp add: normalize_news_def)
  with True show ?thesis
    by (simp add: init_state_def batch_titles_def scored_labels_def)
next
  case False
  with assms have "news_loop pipe init_state ns = Inr st" by (simp add: normalize_news_def)
  from news_loop_result [OF this] show ?thesis
    by (simp add: init_state_def new_titles_def take_map)
qed

lemma title_headline_of: "map title (map (headline_of ns) ts) = ts"
  by (induction ts) (simp_all add: headline_of_def)

lemma news_loop_stops_full:
  assumes "news_loop pipe st ns = Inr st'" and "items_processed pipe st ns < length ns"
  shows "20 \<le> length (titles_found st')"
  using assms
proof (induction ns arbitrary: st)
  case Nil
  then show ?case by simp
next
  case (Cons n ns)
  then show ?case by (auto split: if_splits sum.splits)
qed

lemma items_processed_le: "items_processed pipe st ns \<le> length ns"
  by (induction ns arbitrary: st) (auto split: sum.splits)

lemma sum_list_all_eq:
  "(\<And>x. x \<in> set xs \<Longrightarrow> x = c) \<Longrightarrow> sum_list xs = int (length xs) * (c :: int)"
  by (induction xs) (auto simp: algebra_simps)

lemma label_score_range: "label_score l = - 1 \<or> label_score l = 0 \<or> label_score l = 1"
  by (simp add: label_score_def)

lemma final_link_first_truthy:
  "final_link n s = first_truthy (link_chain n) (JStr (''https://www.google.com/search?q='' @ s))"
  by (auto simp: final_link_def resolve_link_def link_chain_def first_truthy_def Let_def
      split: jval.splits)

lemma news_step_returns:
  assumes "string_title n"
  shows "\<exists>st'. news_step pipe st n = Inr st'"
proof (cases "resolve_title n")
  case JNull
  then show ?thesis by (simp add: news_step_def)
next
  case (JStr s)
  then show ?thesis
    by (cases "pipe s") (simp_all add: news_step_def Let_def)
next
  case (JDict d)
  with assms show ?thesis by (simp add: news_step_def string_title_def)
qed

lemma news_loop_returns:
  "list_all string_title ns \<Longrightarrow> \<exists>st'. news_loop pipe st ns = Inr st'"
proof (induction ns arbitrary: st)
  case Nil
  then show ?case by simp
next
  case (Cons n ns)
  then obtain st1 where "news_step pipe st n = Inr st1"
    using news_step_returns [of n pipe st] by auto
  with Cons show ?case by simp
qed

lemma normalize_news_returns:
  "list_all string_title ns \<Longrightarrow> \<exists>st. normalize_news pipe ns = Inr st"
  using news_loop_returns [of ns pipe init_state] by (simp add: normalize_news_def)

text \<open>
  Claim C7. The normalizer returns on every batch whose titles are strings (or absent),
  and whenever it returns, the titles it found are the first 20 of the batch's titles
  deduplicated with the first occurrence winning and the order kept, so no two of them
  are equal (as strings, case-sensitive); the display list holds the first five of them,
  each with the link of the first item that carries the title, and no two of its entries
  have the same title.
\<close>

theorem normalize_news_dedup:
  "(list_all string_title news_list \<longrightarrow> (\<exists>st. normalize_news sentiment_pipe news_list = Inr st))
   \<and> (\<forall>st. normalize_news sentiment_pipe news_list = Inr st \<longrightarrow>
         titles_found st = take 20 (dedup_first (batch_titles news_list))
         \<and> distinct (titles_found st)
         \<and> display_news st = map (headline_of news_list) (take 5 (titles_found st))
         \<and> distinct (map title (display_news st)))"
proof -
  have "titles_found st = take 20 (dedup_first (batch_titles news_list))
      \<and> distinct (titles_found st)
      \<and> display_news st = map (headline_of news_list) (take 5 (titles_found st))
      \<and> distinct (map title (display_news st))"
    if run: "normalize_news sentiment_pipe news_list = Inr st" for st
  proof -
    note r = news_loop_init [OF run]
    have d: "distinct (titles_found st)"
      using r by (simp add: distinct_dedup_first)
    from r have dn: "display_news st = map (headline_of news_list) (take 5 (titles_found st))"
      by simp
    have "map title (display_news st) = take 5 (titles_found st)"
      unfolding dn by (rule title_headline_of)
    with d have "distinct (map title (display_news st))"
      by simp
    with r d show ?thesis by simp
  qed
  then show ?thesis
    using normalize_news_returns [of news_list sentiment_pipe] by blast
qed

text \<open>
  The example of the specification: two items with the same title and different links
  give one entry, with the link of the first.
\<close>

theorem normalize_news_dedup_witness:
  "\<exists>st. normalize_news (\<lambda>t. Some ''neutral'')
           [[(''title'', JStr ''Shares rally''), (''link'', JStr ''https://a.example/1'')],
            [(''title'', JStr ''Shares rally''), (''link'', JStr ''https://b.example/2'')]]
         = Inr st
       \<and> titles_found st = [JStr ''Shares rally'']
       \<and> display_news st
           = [\<lparr> title = JStr ''Shares rally'', link = JStr ''https://a.example/1'' \<rparr>]"
proof -
  let ?ns = "[[(''title'', JStr ''Shares rally''), (''link'', JStr ''https://a.example/1'')],
              [(''title'', JStr ''Shares rally''), (''link'', JStr ''https://b.example/2'')]]"
  note inst = normalize_news_dedup [of ?ns "\<lambda>t. Some ''neutral''"]
  have "list_all string_title ?ns"
    by (simp add: string_title_def resolve_title_def j_get_def)
  with inst obtain st where run: "normalize_news (\<lambda>t. Some ''neutral'') ?ns = Inr st"
    by blast
  with inst have "titles_found st = take 20 (dedup_first (batch_titles ?ns))"
    and "display_news st = map (headline_of ?ns) (take 5 (titles_found st))"
    by blast+
  then have "titles_found st = [JStr ''Shares rally'']"
    and "display_news st
      = [\<lparr> title = JStr ''Shares rally'', link = JStr ''https://a.example/1'' \<rparr>]"
    by (simp_all add: batch_titles_def resolve_title_def j_get_def headline_of_def
        first_seen_link_def final_link_def resolve_link_def Let_def)
  with run show ?thesis by blast
qed

lemma news_loop_titles_init:
  assumes "news_loop pipe init_state ns = Inr st"
  shows "titles_found st = take 20 (dedup_first (batch_titles ns))"
  using news_loop_result [OF assms] by (simp add: init_state_def new_titles_def)

lemma news_loop_processed_prefix:
  assumes "news_loop pipe st ns = Inr st'"
  shows "news_loop pipe st (take (items_processed pipe st ns) ns) = Inr st'"
  using assms
proof (induction ns arbitrary: st)
  case Nil
  then show ?case by simp
next
  case (Cons n ns)
  then show ?case by (auto split: if_splits sum.splits)
qed

lemma news_loop_before_last:
  assumes "news_loop pipe st ns = Inr st'" and "items_processed pipe st ns = Suc k"
  shows "\<exists>st''. news_loop pipe st (take k ns) = Inr st'' \<and> length (titles_found st'') < 20"
  using assms
proof (induction ns arbitrary: st k)
  case Nil
  then show ?case by simp
next
  case (Cons n ns)
  from Cons.prems have notfull: "\<not> 20 \<le> length (titles_found st)"
    by (auto split: if_splits)
  with Cons.prems obtain st1 where st1: "news_step pipe st n = Inr st1"
    and loop: "news_loop pipe st1 ns = Inr st'"
    and k: "k = items_processed pipe st1 ns"
    by (auto split: sum.splits)
  show ?case
  proof (cases k)
    case 0
    with notfull show ?thesis by simp
  next
    case (Suc k')
    with k have "items_processed pipe st1 ns = Suc k'" by simp
    from Cons.IH [OF loop this] obtain st'' where
      "news_loop pipe st1 (take k' ns) = Inr st''" "length (titles_found st'') < 20"
      by blast
    with Suc st1 notfull show ?thesis by simp
  qed
qed

text \<open>
  Claim C2, as amended. The cap is on the titles found, not on the raw items. The
  normalizer keeps at most 20 distinct titles, and it works on the raw items, in order,
  exactly until those it has worked on carry 20 distinct titles: with \<open>k\<close> the number of
  items that went through the title and link extraction, items are left unprocessed only
  when 20 titles have been found among the first \<open>k\<close>, and the first \<open>k - 1\<close> items carry
  fewer than 20. Items without a title or with a title seen before do not count, so more
  than 20 raw items can be processed.
\<close>

theorem news_loop_cap:
  assumes "normalize_news sentiment_pipe news_list = Inr st"
    and "k = items_processed sentiment_pipe init_state news_list"
  shows "length (titles_found st) \<le> 20
    \<and> k \<le> length news_list
    \<and> (k < length news_list \<longrightarrow>
          length (titles_found st) = 20
          \<and> 20 \<le> length (dedup_first (batch_titles (take k news_list))))
    \<and> (0 < k \<longrightarrow> length (dedup_first (batch_titles (take (k - 1) news_list))) < 20)"
proof -
  have le: "length (titles_found st) \<le> 20"
    using news_loop_init [OF assms(1)] by simp
  have early: "length (titles_found st) = 20
      \<and> 20 \<le> length (dedup_first (batch_titles (take k news_list)))"
    if "k < length news_list"
  proof -
    from that have "news_list \<noteq> []" by auto
    with assms have run: "news_loop sentiment_pipe init_state news_list = Inr st"
      by (simp add: normalize_news_def)
    from news_loop_stops_full [OF run] that assms(2) le
    have full: "length (titles_found st) = 20" by simp
    from news_loop_processed_prefix [OF run] assms(2)
    have "news_loop sentiment_pipe init_state (take k news_list) = Inr st" by simp
    from news_loop_titles_init [OF this] full show ?thesis by simp
  qed
  have before: "length (dedup_first (batch_titles (take (k - 1) news_list))) < 20" if "0 < k"
  proof -
    from that assms(2) have "news_list \<noteq> []" by auto
    with assms have run: "news_loop sentiment_pipe init_state news_list = Inr st"
      by (simp add: normalize_news_def)
    from that assms(2)
    have "items_processed sentiment_pipe init_state news_list = Suc (k - 1)" by simp
    from news_loop_before_last [OF run this] obtain st'' where
      "news_loop sentiment_pipe init_state (take (k - 1) news_list) = Inr st''"
      "length (titles_found st'') < 20"
      by blast
    with news_loop_titles_init [of sentiment_pipe "take (k - 1) news_list" st'']
    show ?thesis by simp
  qed
  from le early before show ?thesis
    using items_processed_le [of sentiment_pipe init_state news_list] assms(2) by blast
qed

text \<open>With 22 items of 22 distinct titles, the first 20 items are processed.\<close>

theorem news_loop_cap_witness:
  "\<exists>st. normalize_news (\<lambda>t. None)
           (map (\<lambda>k. [(''title'', JStr (replicate k (CHR ''x'')))]) [1..<23]) = Inr st
       \<and> length (titles_found st) = 20
       \<and> items_processed (\<lambda>t. None) init_state
            (map (\<lambda>k. [(''title'', JStr (replicate k (CHR ''x'')))]) [1..<23]) = 20"
proof -
  let ?ns = "map (\<lambda>k. [(''title'', JStr (replicate k (CHR ''x'')))]) [1..<23]"
  have "case normalize_news (\<lambda>t. None) ?ns of Inl e \<Rightarrow> False | Inr st \<Rightarrow> True"
    by code_simp
  then obtain st where run: "normalize_news (\<lambda>t. None) ?ns = Inr st"
    by (cases "normalize_news (\<lambda>t. None) ?ns") auto
  have k: "items_processed (\<lambda>t. None) init_state ?ns = 20"
    by code_simp
  have "length ?ns = 22" by simp
  with news_loop_cap [OF run k [symmetric]] have "length (titles_found st) = 20" by simp
  with run k show ?thesis by blast
qed

text \<open>
  Claim C2 as stated fails: of 21 raw items that share one title, all 21 go through the
  title and link extraction, since only one title is ever found.
\<close>

theorem news_loop_processes_more_than_20:
  "length (replicate 21 [(''title'', JStr ''Shares rally'')]) = 21
   \<and> items_processed (\<lambda>t. Some ''neutral'') init_state
        (replicate 21 [(''title'', JStr ''Shares rally'')]) = 21"
  by code_simp

text \<open>
  Claim C3, as amended. For an item whose title resolves to the non-empty string \<open>s\<close>, the
  link kept is the first value that is present and not empty in the chain of the direct
  link field, the url of content.clickThroughUrl and the url of content.canonicalUrl (the
  nested ones where the objects are dicts); if there is none, it is the search URL
  \<open>https://www.google.com/search?q=\<close> followed by the title as it is, without escaping.
\<close>

theorem final_link_chain:
  "final_link n s = first_truthy (link_chain n) (JStr (''https://www.google.com/search?q='' @ s))
   \<and> (resolve_title n = JStr s \<and> s \<noteq> []
        \<longrightarrow> (\<exists>st. news_step sentiment_pipe init_state n = Inr st
               \<and> display_news st
                   = [\<lparr> title = JStr s,
                        link = first_truthy (link_chain n)
                                 (JStr (''https://www.google.com/search?q='' @ s)) \<rparr>]))"
proof -
  have "\<exists>st. news_step sentiment_pipe init_state n = Inr st
      \<and> display_news st = [\<lparr> title = JStr s, link = final_link n s \<rparr>]"
    if "resolve_title n = JStr s" "s \<noteq> []"
    using that by (cases "sentiment_pipe s") (simp_all add: news_step_def init_state_def Let_def)
  then show ?thesis
    using final_link_first_truthy [of n s] by simp
qed

text \<open>
  An item whose direct link is empty and whose click-through object is missing takes the
  canonical url; an item with a title only takes the search URL.
\<close>

theorem final_link_chain_witness:
  "final_link
     [(''title'', JStr ''Shares rally''), (''link'', JStr []),
      (''content'', JDict [(''clickThroughUrl'', JNull),
                           (''canonicalUrl'', JDict [(''url'', JStr ''https://c.example/x'')])])]
     ''Shares rally''
     = JStr ''https://c.example/x''
   \<and> final_link [(''title'', JStr ''Shares rally'')] ''Shares rally''
     = JStr ''https://www.google.com/search?q=Shares rally''
   \<and> (\<exists>st. news_step (\<lambda>t. None) init_state [(''title'', JStr ''Shares rally'')] = Inr st
          \<and> display_news st
              = [\<lparr> title = JStr ''Shares rally'',
                   link = JStr ''https://www.google.com/search?q=Shares rally'' \<rparr>])"
  using
    final_link_chain
      [of "[(''title'', JStr ''Shares rally''), (''link'', JStr []),
            (''content'', JDict [(''clickThroughUrl'', JNull),
                                 (''canonicalUrl'', JDict [(''url'', JStr ''https://c.example/x'')])])]"
        "''Shares rally''" "\<lambda>t. None"]
    final_link_chain [of "[(''title'', JStr ''Shares rally'')]" "''Shares rally''" "\<lambda>t. None"]
  by (simp add: link_chain_def first_truthy_def j_get_def resolve_title_def Let_def)

text \<open>
  Claim C3 as stated fails: the title is put into the search URL unescaped. For the title
  \<open>Shares rally\<close> the link keeps the space, where the escaped title is \<open>Shares%20rally\<close>.
\<close>

theorem final_link_not_escaped:
  "final_link [(''title'', JStr ''Shares rally'')] ''Shares rally''
     = JStr ''https://www.google.com/search?q=Shares rally''
   \<and> JStr (''https://www.google.com/search?q='' @ url_escape ''Shares rally'')
     = JStr ''https://www.google.com/search?q=Shares%20rally''"
  by code_simp


text \<open>
  Claim C8. The scores are the values of the labels of the titles the classifier scored,
  each -1, 0 or 1. When no title was scored the aggregate is reported as
  \<open>No News Data\<close>; when at least one was, the aggregate is the arithmetic mean of the scores
  and the text is another one; the mean is exactly 1 when every label is \<open>positive\<close> and
  exactly -1 when every label is \<open>negative\<close>.
\<close>

theorem sentiment_aggregate:
  assumes "normalize_news sentiment_pipe news_list = Inr st"
  shows "scores st = map label_score (scored_labels sentiment_pipe (titles_found st))
    \<and> (\<forall>x \<in> set (scores st). x = - 1 \<or> x = 0 \<or> x = 1)
    \<and> (scored_labels sentiment_pipe (titles_found st) = []
         \<longrightarrow> aggregate_sentiment fmt2 (scores st) = (0, ''No News Data''))
    \<and> (scored_labels sentiment_pipe (titles_found st) \<noteq> []
         \<longrightarrow> fst (aggregate_sentiment fmt2 (scores st))
               = real_of_int (sum_list (scores st)) / real (length (scores st))
             \<and> snd (aggregate_sentiment fmt2 (scores st)) \<noteq> ''No News Data'')
    \<and> (scored_labels sentiment_pipe (titles_found st) \<noteq> []
         \<and> (\<forall>l \<in> set (scored_labels sentiment_pipe (titles_found st)). l = ''positive'')
         \<longrightarrow> fst (aggregate_sentiment fmt2 (scores st)) = 1)
    \<and> (scored_labels sentiment_pipe (titles_found st) \<noteq> []
         \<and> (\<forall>l \<in> set (scored_labels sentiment_pipe (titles_found st)). l = ''negative'')
         \<longrightarrow> fst (aggregate_sentiment fmt2 (scores st)) = - 1)"
proof -
  let ?labels = "scored_labels sentiment_pipe (titles_found st)"
  have sc: "scores st = map label_score ?labels"
    using news_loop_init [OF assms] by simp
  have range: "\<forall>x \<in> set (scores st). x = - 1 \<or> x = 0 \<or> x = 1"
    unfolding sc using label_score_range by auto
  have empty: "aggregate_sentiment fmt2 (scores st) = (0, ''No News Data'')" if "?labels = []"
    using that sc by (simp add: aggregate_sentiment_def)
  have mean: "fst (aggregate_sentiment fmt2 (scores st))
        = real_of_int (sum_list (scores st)) / real (length (scores st))
      \<and> snd (aggregate_sentiment fmt2 (scores st)) \<noteq> ''No News Data''"
    if "?labels \<noteq> []"
    using that sc by (simp add: aggregate_sentiment_def Let_def)
  have pos: "fst (aggregate_sentiment fmt2 (scores st)) = 1"
    if "?labels \<noteq> []" "\<forall>l \<in> set ?labels. l = ''positive''"
  proof -
    have "sum_list (scores st) = int (length (scores st)) * 1"
      using that(2) unfolding sc by (intro sum_list_all_eq) (auto simp: label_score_def)
    moreover have "scores st \<noteq> []" using that(1) sc by simp
    ultimately show ?thesis using mean [OF that(1)] by simp
  qed
  have neg: "fst (aggregate_sentiment fmt2 (scores st)) = - 1"
    if "?labels \<noteq> []" "\<forall>l \<in> set ?labels. l = ''negative''"
  proof -
    have "sum_list (scores st) = int (length (scores st)) * (- 1)"
      using that(2) unfolding sc by (intro sum_list_all_eq) (auto simp: label_score_def)
    moreover have "scores st \<noteq> []" using that(1) sc by simp
    ultimately show ?thesis using mean [OF that(1)] by simp
  qed
  from sc range empty mean pos neg show ?thesis by blast
qed

text \<open>Two headlines, all labelled positive, all labelled negative, and none scored.\<close>

theorem sentiment_aggregate_witness:
  "(\<exists>st. normalize_news (\<lambda>t. Some ''positive'')
            [[(''title'', JStr ''Shares rally'')], [(''title'', JStr ''Profit up'')]] = Inr st
        \<and> scores st = [1, 1]
        \<and> fst (aggregate_sentiment (\<lambda>v. ''1.00'') (scores st)) = 1)
   \<and> (\<exists>st. normalize_news (\<lambda>t. Some ''negative'')
            [[(''title'', JStr ''Shares rally'')], [(''title'', JStr ''Profit up'')]] = Inr st
        \<and> scores st = [- 1, - 1]
        \<and> fst (aggregate_sentiment (\<lambda>v. ''-1.00'') (scores st)) = - 1)
   \<and> (\<exists>st. normalize_news (\<lambda>t. None)
            [[(''title'', JStr ''Shares rally'')], [(''title'', JStr ''Profit up'')]] = Inr st
        \<and> scores st = []
        \<and> aggregate_sentiment (\<lambda>v. ''0.00'') (scores st) = (0, ''No News Data''))"
proof -
  let ?ns = "[[(''title'', JStr ''Shares rally'')], [(''title'', JStr ''Profit up'')]]"
  have run: "normalize_news pipe ?ns
      = Inr \<lparr> scores = map label_score
                         (scored_labels pipe [JStr ''Shares rally'', JStr ''Profit up'']),
              titles_found = [JStr ''Shares rally'', JStr ''Profit up''],
              seen_titles = {JStr ''Profit up'', JStr ''Shares rally''},
              display_news =
                [\<lparr> title = JStr ''Shares rally'',
                   link = JStr ''https://www.google.com/search?q=Shares rally'' \<rparr>,
                 \<lparr> title = JStr ''Profit up'',
                   link = JStr ''https://www.google.com/search?q=Profit up'' \<rparr>] \<rparr>" for pipe
    by (cases "pipe ''Shares rally''"; cases "pipe ''Profit up''")
      (simp_all add: normalize_news_def init_state_def news_step_def resolve_title_def j_get_def
        final_link_def resolve_link_def scored_labels_def Let_def)
  show ?thesis
    using sentiment_aggregate [OF run [of "\<lambda>t. Some ''positive''"], of "\<lambda>v. ''1.00''"]
      sentiment_aggregate [OF run [of "\<lambda>t. Some ''negative''"], of "\<lambda>v. ''-1.00''"]
      sentiment_aggregate [OF run [of "\<lambda>t. None"], of "\<lambda>v. ''0.00''"]
    by (simp add: run scored_labels_def label_score_def)
qed

end
